theory Spec2Isabelle
  imports Main
begin

section \<open>Paths (pathlib, POSIX flavour)\<close>

text \<open>
  \<open>dataset.py\<close> works with \<open>pathlib.Path\<close> values. A POSIX path is its root
  (\<open>''''\<close>, \<open>/\<close> or \<open>//\<close>) and its list of components; two paths are equal when both
  agree. \<open>Path_from_str\<close> is the constructor call \<open>Path(s)\<close> on a string: it splits the
  root off as \<open>posixpath.splitroot\<close> does and drops empty and \<open>.\<close> components.
\<close>

datatype Path = PosixPath (root: string) (parts: "string list")

fun split_on :: "char \<Rightarrow> string \<Rightarrow> string list" where
  "split_on sep [] = [[]]"
| "split_on sep (c # cs) =
     (if c = sep then [] # split_on sep cs
      else (case split_on sep cs of
              [] \<Rightarrow> [[c]]
            | x # xs \<Rightarrow> (c # x) # xs))"

definition splitroot :: "string \<Rightarrow> string \<times> string" where
  "splitroot p =
     (if take 1 p \<noteq> ''/'' then ([], p)
      else if take 1 (drop 2 p) = ''/'' \<or> take 1 (drop 1 p) \<noteq> ''/'' then (''/'', drop 1 p)
      else (take 2 p, drop 2 p))"

definition Path_from_str :: "string \<Rightarrow> Path" where
  "Path_from_str s =
     (if s = [] then PosixPath [] []
      else (let (rt, rel) = splitroot s
            in PosixPath rt (filter (\<lambda>x. x \<noteq> [] \<and> x \<noteq> ''.'') (split_on (CHR ''/'') rel))))"

definition is_absolute :: "Path \<Rightarrow> bool" where
  "is_absolute p = (root p \<noteq> [])"

section \<open>Repositories, worktrees and the environment\<close>

text \<open>
  Modelled from the spec: the classes \<open>Repo\<close> and \<open>Worktree\<close> of \<open>datalad_core.repo\<close>
  are imported by \<open>dataset.py\<close> but defined elsewhere. The code reads three things of a
  handle: its \<open>path\<close>, its \<open>config.sources\<close> (a dictionary from a source name to a
  configuration source, itself asked for the presence of a key) and, for a worktree, its
  \<open>repo\<close>. Instances are truthy.
\<close>

record ConfigManager =
  sources :: "string \<rightharpoonup> (string \<rightharpoonup> string)"

record Repo =
  repo_path :: Path
  repo_config :: ConfigManager

record Worktree =
  worktree_path :: Path
  worktree_repo :: Repo
  worktree_config :: ConfigManager

text \<open>
  Python exceptions: the class, and the message.
\<close>

datatype exc_class =
  ValueError | TypeError | KeyError | AttributeError | OSError | OtherException string

datatype pyexc = PyExc (exc_kind: exc_class) (exc_msg: string)

text \<open>
  The value given to \<open>Dataset(spec)\<close>: \<open>None\<close>, a \<open>Path\<close>, a \<open>str\<close>, a \<open>Repo\<close>, a
  \<open>Worktree\<close>, or an object of any other type. Of the latter the code only ever takes the
  type and calls \<open>Path(value)\<close>, so it is described by the name of its type and by what
  \<open>Path(value)\<close> does with it (for a value that is not path-like, a \<open>TypeError\<close>).
\<close>

datatype spec =
    Absent
  | PathValue Path
  | TextValue string
  | RepoHandle Repo
  | WorktreeHandle Worktree
  | OtherValue string "pyexc + Path"

text \<open>
  Modelled from the spec: the environment of the process. \<open>cwd\<close> is what \<open>Path.cwd()\<close>
  returns (the working directory is taken to exist). \<open>worktree_at p\<close> and \<open>repo_at p\<close> are the outcomes of the constructor calls
  \<open>Worktree(p)\<close> and \<open>Repo(p)\<close>, the discovery capability of the spec with its three
  outcomes: the handle of the entity rooted at \<open>p\<close>, the \<open>ValueError\<close> by which the
  constructor says that \<open>p\<close> is no such entity, or any other exception (an \<open>OSError\<close>
  for a path the system refuses, for one). \<open>probes\<close> records every constructor call made
  so far, in order.
\<close>

datatype cls = Repo_cls | Worktree_cls

record world =
  cwd :: Path
  worktree_at :: "Path \<Rightarrow> pyexc + Worktree"
  repo_at :: "Path \<Rightarrow> pyexc + Repo"
  probes :: "(cls \<times> Path) list"

definition Worktree_new :: "Path \<Rightarrow> world \<Rightarrow> (pyexc + Worktree) \<times> world" where
  "Worktree_new p w = (worktree_at w p, w\<lparr>probes := probes w @ [(Worktree_cls, p)]\<rparr>)"

definition Repo_new :: "Path \<Rightarrow> world \<Rightarrow> (pyexc + Repo) \<times> world" where
  "Repo_new p w = (repo_at w p, w\<lparr>probes := probes w @ [(Repo_cls, p)]\<rparr>)"

section \<open>get_gitmanaged_from_pathlike\<close>

text \<open>
  The argument \<open>path\<close> is a \<open>Path\<close> or a \<open>str\<close>; a \<open>str\<close> is converted first. \<open>cls\<close> is
  the class to instantiate, here the constructor call itself. \<open>except_ValueError\<close> is the
  \<open>try\<close> statement around the call: the instance is returned, a \<open>ValueError\<close> becomes
  the result \<open>None\<close>, and every other exception leaves the function as it is.
\<close>

datatype pathlike = Of_Path Path | Of_str string

definition except_ValueError :: "pyexc + 'a \<Rightarrow> pyexc + 'a option" where
  "except_ValueError outcome =
     (case outcome of
        Inr obj \<Rightarrow> Inr (Some obj)
      | Inl e \<Rightarrow> if exc_kind e = ValueError then Inr None else Inl e)"

definition get_gitmanaged_from_pathlike ::
  "(Path \<Rightarrow> world \<Rightarrow> (pyexc + 'a) \<times> world) \<Rightarrow> pathlike \<Rightarrow> world
     \<Rightarrow> (pyexc + 'a option) \<times> world" where
  "get_gitmanaged_from_pathlike c path w =
     (let path' = (case path of Of_Path p \<Rightarrow> p | Of_str s \<Rightarrow> Path_from_str s);
          (outcome, w') = c path' w
      in (except_ValueError outcome, w'))"

section \<open>class Dataset\<close>

text \<open>
  The object: the spec as given and the three attributes \<open>_repo\<close>, \<open>_worktree\<close> and
  \<open>_path\<close>, each \<open>None\<close> until an accessor assigns it. An accessor takes the object and
  the environment and returns its result, or the exception that leaves it, with both as
  it leaves them. An exception leaves before the assignment, so the attribute keeps its
  value.
\<close>

record dataset =
  d_spec :: spec
  d_repo :: "Repo option"
  d_worktree :: "Worktree option"
  d_path :: "Path option"

definition Dataset :: "spec \<Rightarrow> dataset" where
  "Dataset s = \<lparr>d_spec = s, d_repo = None, d_worktree = None, d_path = None\<rparr>"

definition pristine_spec :: "dataset \<Rightarrow> spec" where
  "pristine_spec ds = d_spec ds"

definition worktree :: "dataset \<Rightarrow> world \<Rightarrow> (pyexc + Worktree option) \<times> dataset \<times> world" where
  "worktree ds w =
     (if d_worktree ds = None then
        (case pristine_spec ds of
           WorktreeHandle wt \<Rightarrow> (Inr (Some wt), ds\<lparr>d_worktree := Some wt\<rparr>, w)
         | PathValue p \<Rightarrow>
             (let (r, w') = get_gitmanaged_from_pathlike Worktree_new (Of_Path p) w
              in case r of
                   Inl e \<Rightarrow> (Inl e, ds, w')
                 | Inr x \<Rightarrow> (Inr x, ds\<lparr>d_worktree := x\<rparr>, w'))
         | TextValue s \<Rightarrow>
             (let (r, w') = get_gitmanaged_from_pathlike Worktree_new (Of_str s) w
              in case r of
                   Inl e \<Rightarrow> (Inl e, ds, w')
                 | Inr x \<Rightarrow> (Inr x, ds\<lparr>d_worktree := x\<rparr>, w'))
         | _ \<Rightarrow> (Inr None, ds, w))
      else (Inr (d_worktree ds), ds, w))"

text \<open>
  In \<open>repo\<close>, \<open>self.worktree\<close> is read for the test and, when it is not \<open>None\<close>, once
  more for \<open>.repo\<close>; the second read finds the attribute just assigned and changes
  nothing (lemma \<open>worktree_cached\<close> below), so the model reads it once. The same holds
  for the two reads of \<open>self.worktree\<close> and of \<open>self.repo\<close> in \<open>path\<close>.
\<close>

definition repo :: "dataset \<Rightarrow> world \<Rightarrow> (pyexc + Repo option) \<times> dataset \<times> world" where
  "repo ds w =
     (let ps = pristine_spec ds in
      if d_repo ds \<noteq> None then (Inr (d_repo ds), ds, w)
      else
        (let (wt, ds1, w1) = worktree ds w in
         case wt of
           Inl e \<Rightarrow> (Inl e, ds1, w1)
         | Inr (Some t) \<Rightarrow> (Inr (Some (worktree_repo t)), ds1\<lparr>d_repo := Some (worktree_repo t)\<rparr>, w1)
         | Inr None \<Rightarrow>
             (case ps of
                RepoHandle r \<Rightarrow> (Inr (Some r), ds1\<lparr>d_repo := Some r\<rparr>, w1)
              | PathValue p \<Rightarrow>
                  (let (r, w2) = get_gitmanaged_from_pathlike Repo_new (Of_Path p) w1
                   in case r of
                        Inl e \<Rightarrow> (Inl e, ds1, w2)
                      | Inr x \<Rightarrow> (Inr x, ds1\<lparr>d_repo := x\<rparr>, w2))
              | TextValue s \<Rightarrow>
                  (let (r, w2) = get_gitmanaged_from_pathlike Repo_new (Of_str s) w1
                   in case r of
                        Inl e \<Rightarrow> (Inl e, ds1, w2)
                      | Inr x \<Rightarrow> (Inr x, ds1\<lparr>d_repo := x\<rparr>, w2))
              | _ \<Rightarrow> (Inr None, ds1, w1))))"

text \<open>
  \<open>Path(ps)\<close> on the pristine spec, as the last branch of \<open>path\<close> calls it. A \<open>Path\<close>
  is returned as it is and a \<open>str\<close> is parsed; \<open>None\<close> and the handles are not
  path-like.
\<close>

definition Path_of_spec :: "spec \<Rightarrow> pyexc + Path" where
  "Path_of_spec ps =
     (case ps of
        PathValue p \<Rightarrow> Inr p
      | TextValue s \<Rightarrow> Inr (Path_from_str s)
      | OtherValue ty outcome \<Rightarrow> outcome
      | Absent \<Rightarrow> Inl (PyExc TypeError ''NoneType'')
      | RepoHandle r \<Rightarrow> Inl (PyExc TypeError ''Repo'')
      | WorktreeHandle t \<Rightarrow> Inl (PyExc TypeError ''Worktree''))"

definition path :: "dataset \<Rightarrow> world \<Rightarrow> (pyexc + Path) \<times> dataset \<times> world" where
  "path ds w =
     (case d_path ds of
        Some p \<Rightarrow> (Inr p, ds, w)
      | None \<Rightarrow>
          if d_spec ds = Absent then (Inr (cwd w), ds\<lparr>d_path := Some (cwd w)\<rparr>, w)
          else
            (let (wt, ds1, w1) = worktree ds w in
             case wt of
               Inl e \<Rightarrow> (Inl e, ds1, w1)
             | Inr (Some t) \<Rightarrow>
                 (Inr (worktree_path t), ds1\<lparr>d_path := Some (worktree_path t)\<rparr>, w1)
             | Inr None \<Rightarrow>
                 (let (r, ds2, w2) = repo ds1 w1 in
                  case r of
                    Inl e \<Rightarrow> (Inl e, ds2, w2)
                  | Inr (Some rp) \<Rightarrow>
                      (Inr (repo_path rp), ds2\<lparr>d_path := Some (repo_path rp)\<rparr>, w2)
                  | Inr None \<Rightarrow>
                      (case pristine_spec ds2 of
                         PathValue p \<Rightarrow> (Inr p, ds2\<lparr>d_path := Some p\<rparr>, w2)
                       | ps \<Rightarrow>
                           (case Path_of_spec ps of
                              Inl e \<Rightarrow> (Inl e, ds2, w2)
                            | Inr p \<Rightarrow> (Inr p, ds2\<lparr>d_path := Some p\<rparr>, w2))))))"

section \<open>class EnsureDataset\<close>

text \<open>
  The constructor argument \<open>installed\<close> is \<open>None\<close>, a \<open>bool\<close> or a \<open>str\<close>. The code
  tests it three ways: for truth (\<open>if self._installed\<close>), for identity with \<open>False\<close>,
  and for inequality with the string \<open>with-id\<close>.
\<close>

datatype installed = Inst_None | Inst_bool bool | Inst_str string

definition truthy :: "installed \<Rightarrow> bool" where
  "truthy i = (case i of Inst_None \<Rightarrow> False | Inst_bool b \<Rightarrow> b | Inst_str s \<Rightarrow> s \<noteq> [])"

definition is_False :: "installed \<Rightarrow> bool" where
  "is_False i = (i = Inst_bool False)"

definition input_synopsis :: "installed \<Rightarrow> string" where
  "input_synopsis i =
     ''(path to) '' @
     (if truthy i then ''an existing ''
      else if is_False i then ''a non-existing ''
      else ''a '') @
     ''dataset''"

text \<open>
  Modelled from the spec: \<open>Constraint.raise_for(value, msg, **ctx)\<close> of the base class is
  not part of \<open>dataset.py\<close>. It signals a typed validation error to the caller and never
  returns; the error carries the constraint, the value, the message template and the
  fields given. The value is the raw value or the \<open>Dataset\<close> object; a field is a type
  or an exception.
\<close>

datatype pyvalue = Raw spec | Dataset_obj dataset

datatype field = Type_field string | Exc_field pyexc

datatype error =
    ConstraintError installed pyvalue string "(string \<times> field) list"
  | Raised pyexc

definition raise_for :: "installed \<Rightarrow> pyvalue \<Rightarrow> string \<Rightarrow> (string \<times> field) list \<Rightarrow> error" where
  "raise_for self v msg ctx = ConstraintError self v msg ctx"

text \<open>\<open>type(value).__name__\<close> of a raw value.\<close>

definition type_name :: "spec \<Rightarrow> string" where
  "type_name v =
     (case v of
        Absent \<Rightarrow> ''NoneType''
      | PathValue p \<Rightarrow> ''PosixPath''
      | TextValue s \<Rightarrow> ''str''
      | RepoHandle r \<Rightarrow> ''Repo''
      | WorktreeHandle t \<Rightarrow> ''Worktree''
      | OtherValue ty outcome \<Rightarrow> ty)"

text \<open>
  The expression \<open>ds.worktree or ds.repo\<close>, which \<open>__call__\<close> evaluates up to three
  times: the worktree when there is one, otherwise whatever \<open>ds.repo\<close> gives. An
  exception of either read leaves the expression.
\<close>

datatype gitmanaged = A_Worktree Worktree | A_Repo Repo

definition config :: "gitmanaged \<Rightarrow> ConfigManager" where
  "config e = (case e of A_Worktree t \<Rightarrow> worktree_config t | A_Repo r \<Rightarrow> repo_config r)"

definition worktree_or_repo ::
  "dataset \<Rightarrow> world \<Rightarrow> (pyexc + gitmanaged option) \<times> dataset \<times> world" where
  "worktree_or_repo ds w =
     (let (wt, ds1, w1) = worktree ds w in
      case wt of
        Inl e \<Rightarrow> (Inl e, ds1, w1)
      | Inr (Some t) \<Rightarrow> (Inr (Some (A_Worktree t)), ds1, w1)
      | Inr None \<Rightarrow>
          (let (r, ds2, w2) = repo ds1 w1
           in case r of
                Inl e \<Rightarrow> (Inl e, ds2, w2)
              | Inr x \<Rightarrow> (Inr (map_option A_Repo x), ds2, w2)))"

text \<open>
  \<open>__call__\<close>. Only the read of \<open>path\<close> is inside the \<open>try\<close>; an exception of a later
  read of \<open>worktree\<close> or \<open>repo\<close> leaves the call as it is.
\<close>

definition EnsureDataset_call :: "installed \<Rightarrow> spec \<Rightarrow> world \<Rightarrow> (error + dataset) \<times> world" where
  "EnsureDataset_call self v w =
     (let ds = Dataset v;
          (pr, ds1, w1) = path ds w
      in case pr of
        Inl e \<Rightarrow>
          if exc_kind e = ValueError \<or> exc_kind e = TypeError then
            (Inl (raise_for self (Raw v) ''cannot create Dataset from {type}: {__caused_by__}''
                    [(''type'', Type_field (type_name v)), (''__caused_by__'', Exc_field e)]), w1)
          else (Inl (Raised e), w1)
      | Inr p \<Rightarrow>
          (let (exists1, ds2, w2) =
                 (if is_False self
                  then (let (q, d, w') = worktree_or_repo ds1 w1
                        in case q of
                             Inl e \<Rightarrow> (Inl e, d, w')
                           | Inr x \<Rightarrow> (Inr (x \<noteq> None), d, w'))
                  else (Inr False, ds1, w1))
           in
           case exists1 of
             Inl e \<Rightarrow> (Inl (Raised e), w2)
           | Inr True \<Rightarrow>
               (Inl (raise_for self (Dataset_obj ds2) ''already exists locally'' []), w2)
           | Inr False \<Rightarrow>
             (let (missing, ds3, w3) =
                    (if truthy self
                     then (let (q, d, w') = worktree_or_repo ds2 w2
                           in case q of
                                Inl e \<Rightarrow> (Inl e, d, w')
                              | Inr x \<Rightarrow> (Inr (x = None), d, w'))
                     else (Inr False, ds2, w2))
              in
              case missing of
                Inl e \<Rightarrow> (Inl (Raised e), w3)
              | Inr True \<Rightarrow>
                  (Inl (raise_for self (Dataset_obj ds3) ''not installed'' []), w3)
              | Inr False \<Rightarrow>
                  if self \<noteq> Inst_str ''with-id'' then (Inr ds3, w3)
                  else
                    (let (to_query, ds4, w4) = worktree_or_repo ds3 w3 in
                     case to_query of
                       Inl e \<Rightarrow> (Inl (Raised e), w4)
                     | Inr None \<Rightarrow> (Inl (Raised (PyExc AttributeError ''config'')), w4)
                     | Inr (Some e) \<Rightarrow>
                         (case sources (config e) ''datalad-branch'' of
                            None \<Rightarrow> (Inl (Raised (PyExc KeyError ''datalad-branch'')), w4)
                          | Some src \<Rightarrow>
                              if src ''datalad.dataset.id'' = None
                              then (Inl (raise_for self (Dataset_obj ds4)
                                           ''does not have a datalad-id'' []), w4)
                              else (Inr ds4, w4))))))"

section \<open>Vocabulary of the statements\<close>

text \<open>
  A sequence of attribute reads on one object, in one environment: each read is one of the
  three accessors, applied to the object and the environment as the read before left
  them, whether it returned or raised.
\<close>

datatype access = Get_path | Get_repo | Get_worktree

fun access_all :: "access list \<Rightarrow> dataset \<Rightarrow> world \<Rightarrow> dataset \<times> world" where
  "access_all [] ds w = (ds, w)"
| "access_all (a # as) ds w =
     (case a of
        Get_path \<Rightarrow> (let (r, ds', w') = path ds w in access_all as ds' w')
      | Get_repo \<Rightarrow> (let (r, ds', w') = repo ds w in access_all as ds' w')
      | Get_worktree \<Rightarrow> (let (r, ds', w') = worktree ds w in access_all as ds' w'))"

text \<open>
  What the accessors \<open>worktree\<close> and \<open>repo\<close> come to for a spec in an environment when
  nothing is stored yet (lemmas \<open>worktree_unset\<close> and \<open>repo_unset\<close>).
\<close>

definition found_worktree :: "spec \<Rightarrow> world \<Rightarrow> pyexc + Worktree option" where
  "found_worktree s w =
     (case s of
        WorktreeHandle t \<Rightarrow> Inr (Some t)
      | PathValue p \<Rightarrow> except_ValueError (worktree_at w p)
      | TextValue x \<Rightarrow> except_ValueError (worktree_at w (Path_from_str x))
      | _ \<Rightarrow> Inr None)"

definition found_repo :: "spec \<Rightarrow> world \<Rightarrow> pyexc + Repo option" where
  "found_repo s w =
     (case found_worktree s w of
        Inl e \<Rightarrow> Inl e
      | Inr (Some t) \<Rightarrow> Inr (Some (worktree_repo t))
      | Inr None \<Rightarrow>
          (case s of
             RepoHandle r \<Rightarrow> Inr (Some r)
           | PathValue p \<Rightarrow> except_ValueError (repo_at w p)
           | TextValue x \<Rightarrow> except_ValueError (repo_at w (Path_from_str x))
           | _ \<Rightarrow> Inr None))"

text \<open>
  What \<open>ds.worktree or ds.repo\<close> comes to: the worktree when there is one, otherwise the
  repository when there is one.
\<close>

definition found_entity :: "spec \<Rightarrow> world \<Rightarrow> pyexc + gitmanaged option" where
  "found_entity s w =
     (case found_worktree s w of
        Inl e \<Rightarrow> Inl e
      | Inr (Some t) \<Rightarrow> Inr (Some (A_Worktree t))
      | Inr None \<Rightarrow>
          (case found_repo s w of
             Inl e \<Rightarrow> Inl e
           | Inr r \<Rightarrow> Inr (map_option A_Repo r)))"

text \<open>
  Two environments with the same working directory and the same constructor outcomes;
  they may differ in the constructor calls recorded.
\<close>

definition same_fs :: "world \<Rightarrow> world \<Rightarrow> bool" where
  "same_fs w w' = (cwd w' = cwd w \<and> worktree_at w' = worktree_at w \<and> repo_at w' = repo_at w)"

text \<open>
  The invariant of an object built from \<open>s\<close> and read in the environment \<open>w0\<close>: an
  attribute that is set holds what the accessor comes to for \<open>s\<close> in \<open>w0\<close>.
\<close>

definition consistent :: "spec \<Rightarrow> world \<Rightarrow> dataset \<Rightarrow> world \<Rightarrow> bool" where
  "consistent s w0 ds w =
     (d_spec ds = s \<and> same_fs w0 w \<and>
      (d_worktree ds = None \<or> found_worktree s w0 = Inr (d_worktree ds)) \<and>
      (d_repo ds = None \<or> found_repo s w0 = Inr (d_repo ds)))"

text \<open>
  The outcome of \<open>__call__\<close> once \<open>path\<close> has resolved, in terms of the entity \<open>q\<close>
  that \<open>ds.worktree or ds.repo\<close> comes to: the four tests of the code in their order
  (lemma \<open>call_after_path\<close>).
\<close>

definition policy_outcome :: "installed \<Rightarrow> gitmanaged option \<Rightarrow> dataset \<Rightarrow> error + dataset" where
  "policy_outcome self q ds =
     (if is_False self \<and> q \<noteq> None
        then Inl (raise_for self (Dataset_obj ds) ''already exists locally'' [])
      else if truthy self \<and> q = None
        then Inl (raise_for self (Dataset_obj ds) ''not installed'' [])
      else if self \<noteq> Inst_str ''with-id'' then Inr ds
      else (case q of
              None \<Rightarrow> Inl (Raised (PyExc AttributeError ''config''))
            | Some e \<Rightarrow>
                (case sources (config e) ''datalad-branch'' of
                   None \<Rightarrow> Inl (Raised (PyExc KeyError ''datalad-branch''))
                 | Some src \<Rightarrow>
                     if src ''datalad.dataset.id'' = None
                     then Inl (raise_for self (Dataset_obj ds) ''does not have a datalad-id'' [])
                     else Inr ds)))"

text \<open>
  Two objects in the same state, one built from the text \<open>s\<close> and one from the path
  \<open>Path(s)\<close>.
\<close>

definition text_as_path :: "string \<Rightarrow> dataset \<Rightarrow> dataset \<Rightarrow> bool" where
  "text_as_path s d1 d2 =
     (d_spec d1 = TextValue s \<and> d_spec d2 = PathValue (Path_from_str s) \<and>
      d_repo d1 = d_repo d2 \<and> d_worktree d1 = d_worktree d2 \<and> d_path d1 = d_path d2)"

text \<open>The words of a text: its pieces between single spaces.\<close>

definition words_of :: "string \<Rightarrow> string list" where
  "words_of s = split_on (CHR '' '') s"

text \<open>
  A small environment for the examples: a checkout at \<open>/data/ds\<close> whose branch
  configuration has the dataset id, a bare repository at \<open>/data/bare.git\<close> without it,
  a directory \<open>/data/locked\<close> at which both constructors fail with an \<open>OSError\<close>, and
  nothing anywhere else. The working directory is the checkout.
\<close>

definition ex_config :: ConfigManager where
  "ex_config = \<lparr>sources = [''datalad-branch'' \<mapsto> [''datalad.dataset.id'' \<mapsto> ''6d1a'']]\<rparr>"

definition ex_config_no_id :: ConfigManager where
  "ex_config_no_id = \<lparr>sources = [''datalad-branch'' \<mapsto> Map.empty]\<rparr>"

definition ex_repo :: Repo where
  "ex_repo = \<lparr>repo_path = PosixPath ''/'' [''data'', ''ds'', ''.git''], repo_config = ex_config\<rparr>"

definition ex_worktree :: Worktree where
  "ex_worktree =
     \<lparr>worktree_path = PosixPath ''/'' [''data'', ''ds''], worktree_repo = ex_repo,
      worktree_config = ex_config\<rparr>"

definition ex_bare :: Repo where
  "ex_bare = \<lparr>repo_path = PosixPath ''/'' [''data'', ''bare.git''], repo_config = ex_config_no_id\<rparr>"

definition ex_world :: world where
  "ex_world =
     \<lparr>cwd = PosixPath ''/'' [''data'', ''ds''],
      worktree_at =
        (\<lambda>p. if p = PosixPath ''/'' [''data'', ''ds''] then Inr ex_worktree
             else if p = PosixPath ''/'' [''data'', ''locked'']
               then Inl (PyExc OSError ''Permission denied'')
             else Inl (PyExc ValueError ''not a worktree'')),
      repo_at =
        (\<lambda>p. if p = PosixPath ''/'' [''data'', ''bare.git''] then Inr ex_bare
             else if p = PosixPath ''/'' [''data'', ''locked'']
               then Inl (PyExc OSError ''Permission denied'')
             else Inl (PyExc ValueError ''not a repository'')),
      probes = []\<rparr>"

section \<open>The accessors, attribute by attribute\<close>

lemma worktree_cached: "d_worktree ds = Some t \<Longrightarrow> worktree ds w = (Inr (Some t), ds, w)"
  by (simp add: worktree_def)

lemma repo_cached: "d_repo ds = Some r \<Longrightarrow> repo ds w = (Inr (Some r), ds, w)"
  by (simp add: repo_def)

lemma path_cached: "d_path ds = Some p \<Longrightarrow> path ds w = (Inr p, ds, w)"
  by (simp add: path_def)

lemma worktree_unset:
  "d_worktree ds = None \<Longrightarrow> worktree ds w = (r, ds', w') \<Longrightarrow>
   r = found_worktree (d_spec ds) w \<and> same_fs w w' \<and>
   ds' = (case r of Inl e \<Rightarrow> ds | Inr x \<Rightarrow> ds\<lparr>d_worktree := x\<rparr>)"
  by (cases "d_spec ds")
     (auto simp add: worktree_def pristine_spec_def found_worktree_def same_fs_def Let_def
        get_gitmanaged_from_pathlike_def Worktree_new_def split: sum.splits)

lemma same_fs_refl: "same_fs w w"
  by (simp add: same_fs_def)

lemma same_fs_trans: "same_fs w w' \<Longrightarrow> same_fs w' w'' \<Longrightarrow> same_fs w w''"
  by (simp add: same_fs_def)

lemma found_worktree_same_fs: "same_fs w w' \<Longrightarrow> found_worktree s w' = found_worktree s w"
  by (cases s) (simp_all add: same_fs_def found_worktree_def)

lemma found_repo_same_fs: "same_fs w w' \<Longrightarrow> found_repo s w' = found_repo s w"
  by (cases s)
     (simp_all add: same_fs_def found_repo_def found_worktree_def split: sum.splits option.splits)

lemma worktree_consistent:
  assumes "consistent s w0 ds w" and "worktree ds w = (r, ds', w')"
  shows "r = found_worktree s w0 \<and> consistent s w0 ds' w'
         \<and> (case r of Inl e \<Rightarrow> True | Inr x \<Rightarrow> d_worktree ds' = x)"
proof (cases "d_worktree ds")
  case None
  from assms(1) have sp: "d_spec ds = s" and fs: "same_fs w0 w"
    and rp: "d_repo ds = None \<or> found_repo s w0 = Inr (d_repo ds)"
    by (simp_all add: consistent_def)
  from worktree_unset [OF None assms(2)] sp
  have r: "r = found_worktree s w" and fs': "same_fs w w'"
    and ds': "ds' = (case r of Inl e \<Rightarrow> ds | Inr x \<Rightarrow> ds\<lparr>d_worktree := x\<rparr>)"
    by simp_all
  from r fs have r0: "r = found_worktree s w0"
    by (simp add: found_worktree_same_fs)
  have fs0: "same_fs w0 w'" by (rule same_fs_trans [OF fs fs'])
  show ?thesis
  proof (cases r)
    case (Inl e)
    with ds' have "ds' = ds" by simp
    with Inl r0 None sp rp fs0 show ?thesis by (simp add: consistent_def)
  next
    case (Inr x)
    with ds' have d: "ds' = ds\<lparr>d_worktree := x\<rparr>" by simp
    from Inr r0 have "found_worktree s w0 = Inr x" by simp
    with Inr r0 sp rp fs0 show ?thesis by (simp add: consistent_def d)
  qed
next
  case (Some t)
  with assms(2) have e: "r = Inr (Some t)" "ds' = ds" "w' = w"
    by (simp_all add: worktree_cached)
  from assms(1) Some have "found_worktree s w0 = Inr (Some t)" by (simp add: consistent_def)
  with e assms(1) Some show ?thesis by simp
qed

lemma repo_unset:
  "d_repo ds = None \<Longrightarrow> d_worktree ds = None \<Longrightarrow> repo ds w = (r, ds', w') \<Longrightarrow>
   r = found_repo (d_spec ds) w \<and> same_fs w w' \<and> d_spec ds' = d_spec ds \<and> d_path ds' = d_path ds \<and>
   (d_worktree ds' = None \<or> found_worktree (d_spec ds) w = Inr (d_worktree ds')) \<and>
   (case r of Inl e \<Rightarrow> d_repo ds' = None | Inr x \<Rightarrow> d_repo ds' = x)"
  by (cases "d_spec ds")
     (auto simp add: repo_def worktree_def pristine_spec_def found_repo_def found_worktree_def
        same_fs_def Let_def get_gitmanaged_from_pathlike_def Worktree_new_def Repo_new_def
        split: option.splits sum.splits)

lemma repo_of_worktree:
  "d_repo ds = None \<Longrightarrow> d_worktree ds = Some t \<Longrightarrow>
   repo ds w = (Inr (Some (worktree_repo t)), ds\<lparr>d_repo := Some (worktree_repo t)\<rparr>, w)"
  by (simp add: repo_def worktree_cached)

lemma repo_consistent:
  assumes "consistent s w0 ds w" and "repo ds w = (r, ds', w')"
  shows "r = found_repo s w0 \<and> consistent s w0 ds' w'"
proof -
  from assms(1) have sp: "d_spec ds = s" and fs: "same_fs w0 w"
    and wp: "d_worktree ds = None \<or> found_worktree s w0 = Inr (d_worktree ds)"
    and rp: "d_repo ds = None \<or> found_repo s w0 = Inr (d_repo ds)"
    by (simp_all add: consistent_def)
  show ?thesis
  proof (cases "d_repo ds")
    case (Some x)
    with assms(2) have e: "r = Inr (Some x)" "ds' = ds" "w' = w"
      by (simp_all add: repo_cached)
    from Some rp have "found_repo s w0 = Inr (Some x)" by simp
    with e assms(1) show ?thesis by simp
  next
    case None
    show ?thesis
    proof (cases "d_worktree ds")
      case (Some t)
      from assms(2) have r: "r = Inr (Some (worktree_repo t))"
        and ds': "ds' = ds\<lparr>d_repo := Some (worktree_repo t)\<rparr>" and "w' = w"
        by (auto simp add: repo_of_worktree [OF None Some])
      from Some wp have fw: "found_worktree s w0 = Inr (Some t)" by simp
      then have fr: "found_repo s w0 = Inr (Some (worktree_repo t))"
        by (simp add: found_repo_def)
      have "consistent s w0 ds' w'"
        unfolding consistent_def using sp fs fw fr Some \<open>w' = w\<close> by (simp add: ds')
      with r fr show ?thesis by simp
    next
      case wnone: None
      note u = repo_unset [OF None wnone assms(2), unfolded sp]
      from u have r: "r = found_repo s w" by blast
      from u have fs': "same_fs w w'" by blast
      from u have sp': "d_spec ds' = s" by blast
      from u have w': "d_worktree ds' = None \<or> found_worktree s w = Inr (d_worktree ds')"
        by blast
      from u have r': "case r of Inl e \<Rightarrow> d_repo ds' = None | Inr x \<Rightarrow> d_repo ds' = x"
        by blast
      from r fs have r0: "r = found_repo s w0"
        by (simp add: found_repo_same_fs)
      from w' fs have w0: "d_worktree ds' = None \<or> found_worktree s w0 = Inr (d_worktree ds')"
        by (simp add: found_worktree_same_fs)
      have rr: "d_repo ds' = None \<or> found_repo s w0 = Inr (d_repo ds')"
      proof (cases "found_repo s w0")
        case (Inl e)
        with r' r0 show ?thesis by simp
      next
        case (Inr x)
        with r' r0 show ?thesis by simp
      qed
      have "consistent s w0 ds' w'"
        unfolding consistent_def using sp' w0 rr same_fs_trans [OF fs fs'] by simp
      with r0 show ?thesis by simp
    qed
  qed
qed

lemma path_consistent:
  assumes "consistent s w0 ds w" and "path ds w = (r, ds', w')"
  shows "consistent s w0 ds' w'"
proof (cases "d_path ds")
  case (Some p)
  with assms show ?thesis by (simp add: path_cached)
next
  case None
  show ?thesis
  proof (cases "d_spec ds = Absent")
    case True
    with None assms show ?thesis
      by (auto simp add: path_def consistent_def)
  next
    case False
    obtain wt ds1 w1 where a1: "worktree ds w = (wt, ds1, w1)"
      by (cases "worktree ds w") auto
    from worktree_consistent [OF assms(1) a1] have c1: "consistent s w0 ds1 w1" by simp
    show ?thesis
    proof (cases "wt = Inr None")
      case stop: False
      with None False a1 assms(2) have "w' = w1" and "d_spec ds' = d_spec ds1"
        and "d_repo ds' = d_repo ds1" and "d_worktree ds' = d_worktree ds1"
        by (auto simp add: path_def split: sum.splits option.splits)
      with c1 show ?thesis by (simp add: consistent_def)
    next
      case wnone: True
      obtain rp ds2 w2 where a2: "repo ds1 w1 = (rp, ds2, w2)"
        by (cases "repo ds1 w1") auto
      from repo_consistent [OF c1 a2] have c2: "consistent s w0 ds2 w2" by simp
      from None False a1 wnone a2 assms(2) have "w' = w2" and "d_spec ds' = d_spec ds2"
        and "d_repo ds' = d_repo ds2" and "d_worktree ds' = d_worktree ds2"
        by (auto simp add: path_def split: option.splits spec.splits sum.splits)
      with c2 show ?thesis by (auto simp add: consistent_def)
    qed
  qed
qed

lemma consistent_Dataset: "consistent s w (Dataset s) w"
  by (simp add: consistent_def Dataset_def same_fs_refl)

lemma access_all_consistent:
  "consistent s w0 ds w \<Longrightarrow> access_all accs ds w = (ds', w') \<Longrightarrow> consistent s w0 ds' w'"
proof (induction accs arbitrary: ds w)
  case Nil
  then show ?case by simp
next
  case (Cons a accs)
  show ?case
  proof (cases a)
    case Get_path
    obtain r d1 w1 where st: "path ds w = (r, d1, w1)" by (cases "path ds w") auto
    from path_consistent [OF Cons.prems(1) st] have "consistent s w0 d1 w1" .
    moreover from Cons.prems(2) Get_path st have "access_all accs d1 w1 = (ds', w')" by simp
    ultimately show ?thesis by (rule Cons.IH)
  next
    case Get_repo
    obtain r d1 w1 where st: "repo ds w = (r, d1, w1)" by (cases "repo ds w") auto
    from repo_consistent [OF Cons.prems(1) st] have "consistent s w0 d1 w1" by simp
    moreover from Cons.prems(2) Get_repo st have "access_all accs d1 w1 = (ds', w')" by simp
    ultimately show ?thesis by (rule Cons.IH)
  next
    case Get_worktree
    obtain r d1 w1 where st: "worktree ds w = (r, d1, w1)" by (cases "worktree ds w") auto
    from worktree_consistent [OF Cons.prems(1) st] have "consistent s w0 d1 w1" by simp
    moreover from Cons.prems(2) Get_worktree st have "access_all accs d1 w1 = (ds', w')" by simp
    ultimately show ?thesis by (rule Cons.IH)
  qed
qed

section \<open>Reads of a new object\<close>

lemma fst_worktree_Dataset: "fst (worktree (Dataset v) w) = found_worktree v w"
proof -
  obtain r d w' where st: "worktree (Dataset v) w = (r, d, w')"
    by (cases "worktree (Dataset v) w") auto
  from worktree_consistent [OF consistent_Dataset st] st show ?thesis by simp
qed

lemma fst_repo_Dataset: "fst (repo (Dataset v) w) = found_repo v w"
proof -
  obtain r d w' where st: "repo (Dataset v) w = (r, d, w')"
    by (cases "repo (Dataset v) w") auto
  from repo_consistent [OF consistent_Dataset st] st show ?thesis by simp
qed

lemma worktree_or_repo_consistent:
  assumes "consistent s w0 ds w" and "worktree_or_repo ds w = (q, ds', w')"
  shows "q = found_entity s w0 \<and> consistent s w0 ds' w'"
proof -
  obtain wt ds1 w1 where a1: "worktree ds w = (wt, ds1, w1)"
    by (cases "worktree ds w") auto
  from worktree_consistent [OF assms(1) a1]
  have fw: "found_worktree s w0 = wt" and c1: "consistent s w0 ds1 w1" by simp_all
  show ?thesis
  proof (cases "wt = Inr None")
    case False
    with a1 assms(2) have "ds' = ds1" and "w' = w1"
      and "q = (case wt of Inl e \<Rightarrow> Inl e | Inr x \<Rightarrow> Inr (map_option A_Worktree x))"
      by (auto simp add: worktree_or_repo_def split: sum.splits option.splits)
    with False fw c1 show ?thesis
      by (auto simp add: found_entity_def split: sum.splits option.splits)
  next
    case True
    obtain rp ds2 w2 where a2: "repo ds1 w1 = (rp, ds2, w2)"
      by (cases "repo ds1 w1") auto
    from repo_consistent [OF c1 a2]
    have fr: "found_repo s w0 = rp" and c2: "consistent s w0 ds2 w2" by simp_all
    from True a1 a2 assms(2) have "ds' = ds2" and "w' = w2"
      and "q = (case rp of Inl e \<Rightarrow> Inl e | Inr x \<Rightarrow> Inr (map_option A_Repo x))"
      by (auto simp add: worktree_or_repo_def split: sum.splits)
    with True fw fr c2 show ?thesis
      by (auto simp add: found_entity_def split: sum.splits)
  qed
qed

lemma fst_path_Dataset:
  "fst (path (Dataset v) w) =
     (if v = Absent then Inr (cwd w)
      else (case found_worktree v w of
              Inl e \<Rightarrow> Inl e
            | Inr (Some t) \<Rightarrow> Inr (worktree_path t)
            | Inr None \<Rightarrow>
                (case found_repo v w of
                   Inl e \<Rightarrow> Inl e
                 | Inr (Some r) \<Rightarrow> Inr (repo_path r)
                 | Inr None \<Rightarrow> Path_of_spec v)))"
proof (cases "v = Absent")
  case True
  then show ?thesis by (simp add: path_def Dataset_def)
next
  case False
  obtain wt ds1 w1 where a1: "worktree (Dataset v) w = (wt, ds1, w1)"
    by (cases "worktree (Dataset v) w") auto
  from worktree_consistent [OF consistent_Dataset a1]
  have fw: "found_worktree v w = wt" and c1: "consistent v w ds1 w1" by simp_all
  have np: "d_path (Dataset v) = None" and sp: "d_spec (Dataset v) = v"
    by (simp_all add: Dataset_def)
  show ?thesis
  proof (cases wt)
    case (Inl e)
    with False a1 np sp have "fst (path (Dataset v) w) = Inl e"
      by (simp add: path_def)
    with Inl fw False show ?thesis by simp
  next
    case (Inr x)
    show ?thesis
    proof (cases x)
      case (Some t)
      with Inr False a1 np sp have "fst (path (Dataset v) w) = Inr (worktree_path t)"
        by (simp add: path_def)
      with Some Inr fw False show ?thesis by simp
    next
      case None
      obtain rp ds2 w2 where a2: "repo ds1 w1 = (rp, ds2, w2)"
        by (cases "repo ds1 w1") auto
      from repo_consistent [OF c1 a2]
      have fr: "found_repo v w = rp" and c2: "consistent v w ds2 w2" by simp_all
      from c2 have sp2: "pristine_spec ds2 = v" by (simp add: consistent_def pristine_spec_def)
      show ?thesis
      proof (cases rp)
        case rerr: (Inl e)
        with None Inr False a1 a2 np sp have "fst (path (Dataset v) w) = Inl e"
          by (simp add: path_def)
        with rerr None Inr fw fr False show ?thesis by simp
      next
        case rval: (Inr y)
        show ?thesis
        proof (cases y)
          case rsome: (Some r)
          with rval None Inr False a1 a2 np sp
          have "fst (path (Dataset v) w) = Inr (repo_path r)"
            by (simp add: path_def)
          with rsome rval None Inr fw fr False show ?thesis by simp
        next
          case rnone: None
          from False None Inr rnone rval a1 a2 np sp sp2
          have "fst (path (Dataset v) w) = Path_of_spec v"
            by (cases v) (simp_all add: path_def Path_of_spec_def split: sum.splits)
          with rnone rval None Inr fw fr False show ?thesis by simp
        qed
      qed
    qed
  qed
qed

lemma path_found_entity:
  "fst (path (Dataset v) w) = Inr p \<Longrightarrow> \<exists>q. found_entity v w = Inr q"
  by (cases "v = Absent")
     (auto simp add: fst_path_Dataset found_entity_def found_repo_def found_worktree_def
        split: sum.splits option.splits)

lemma found_entity_path:
  "found_entity v w = Inr (Some e) \<Longrightarrow> \<exists>p. fst (path (Dataset v) w) = Inr p"
  by (cases "v = Absent")
     (auto simp add: fst_path_Dataset found_entity_def found_repo_def found_worktree_def
        split: sum.splits option.splits)

lemma found_entity_present:
  "(\<exists>e. found_entity v w = Inr (Some e)) \<longleftrightarrow>
   (\<exists>t. found_worktree v w = Inr (Some t)) \<or> (\<exists>r. found_repo v w = Inr (Some r))"
  by (auto simp add: found_entity_def found_repo_def split: sum.splits option.splits)

lemma absent_reads_change_nothing:
  "d_spec ds = Absent \<Longrightarrow> d_path ds = Some p \<Longrightarrow> d_worktree ds = None \<Longrightarrow> d_repo ds = None
   \<Longrightarrow> access_all accs ds w = (ds, w)"
proof (induction accs)
  case Nil
  then show ?case by simp
next
  case (Cons a accs)
  then show ?case
    by (cases a) (simp_all add: path_def worktree_def repo_def pristine_spec_def)
qed

lemma repo_Some_stored: "repo ds w = (Inr (Some r), ds', w') \<Longrightarrow> d_repo ds' = Some r"
  by (auto simp add: repo_def worktree_def pristine_spec_def get_gitmanaged_from_pathlike_def
        Worktree_new_def Repo_new_def Let_def
        split: if_splits option.splits spec.splits sum.splits)

lemma repo_None_unchanged: "repo ds w = (Inr None, ds', w') \<Longrightarrow> ds' = ds"
  by (auto simp add: repo_def worktree_def pristine_spec_def get_gitmanaged_from_pathlike_def
        Worktree_new_def Repo_new_def Let_def
        split: if_splits option.splits spec.splits sum.splits)

lemma path_raises_iff:
  "fst (path (Dataset v) w) = Inl e \<longleftrightarrow>
     found_worktree v w = Inl e
     \<or> (found_worktree v w = Inr None \<and> found_repo v w = Inl e)
     \<or> (\<exists>ty. v = OtherValue ty (Inl e))"
  by (cases v)
     (auto simp add: fst_path_Dataset found_worktree_def found_repo_def Path_of_spec_def
        split: option.splits sum.splits)

section \<open>The validation call\<close>

lemma is_False_not_truthy: "is_False self \<Longrightarrow> \<not> truthy self \<and> self \<noteq> Inst_str ''with-id''"
  by (auto simp add: is_False_def truthy_def)

lemma not_truthy_not_with_id: "\<not> truthy self \<Longrightarrow> self \<noteq> Inst_str ''with-id''"
  by (auto simp add: truthy_def)

lemma call_after_path:
  assumes "path (Dataset v) w = (Inr p, ds1, w1)"
  shows "\<exists>q ds w'. found_entity v w = Inr q \<and> consistent v w ds w' \<and>
           EnsureDataset_call self v w = (policy_outcome self q ds, w')"
proof -
  from path_consistent [OF consistent_Dataset assms] have c1: "consistent v w ds1 w1" .
  from assms have "fst (path (Dataset v) w) = Inr p" by simp
  from path_found_entity [OF this] obtain q where q: "found_entity v w = Inr q" by blast
  show ?thesis
  proof (cases "is_False self")
    case True
    obtain q2 d2 w2 where a2: "worktree_or_repo ds1 w1 = (q2, d2, w2)"
      by (cases "worktree_or_repo ds1 w1") auto
    from worktree_or_repo_consistent [OF c1 a2] q
    have q2: "q2 = Inr q" and c2: "consistent v w d2 w2" by simp_all
    from True assms a2 q2 is_False_not_truthy [OF True]
    have "EnsureDataset_call self v w = (policy_outcome self q d2, w2)"
      by (simp add: EnsureDataset_call_def policy_outcome_def)
    with c2 q show ?thesis by blast
  next
    case False
    show ?thesis
    proof (cases "truthy self")
      case nt: False
      from False nt assms not_truthy_not_with_id [OF nt]
      have "EnsureDataset_call self v w = (policy_outcome self q ds1, w1)"
        by (simp add: EnsureDataset_call_def policy_outcome_def)
      with c1 q show ?thesis by blast
    next
      case True
      obtain q3 d3 w3 where a3: "worktree_or_repo ds1 w1 = (q3, d3, w3)"
        by (cases "worktree_or_repo ds1 w1") auto
      from worktree_or_repo_consistent [OF c1 a3] q
      have q3: "q3 = Inr q" and c3: "consistent v w d3 w3" by simp_all
      show ?thesis
      proof (cases "q = None \<or> self \<noteq> Inst_str ''with-id''")
        case stop: True
        from False True assms a3 q3 stop
        have "EnsureDataset_call self v w = (policy_outcome self q d3, w3)"
          by (auto simp add: EnsureDataset_call_def policy_outcome_def)
        with c3 q show ?thesis by blast
      next
        case go: False
        obtain q4 d4 w4 where a4: "worktree_or_repo d3 w3 = (q4, d4, w4)"
          by (cases "worktree_or_repo d3 w3") auto
        from worktree_or_repo_consistent [OF c3 a4] q
        have q4: "q4 = Inr q" and c4: "consistent v w d4 w4" by simp_all
        from False True assms a3 a4 q3 q4 go
        have "EnsureDataset_call self v w = (policy_outcome self q d4, w4)"
          by (auto simp add: EnsureDataset_call_def policy_outcome_def split: option.splits)
        with c4 q show ?thesis by blast
      qed
    qed
  qed
qed

lemma uncaught_exception_propagates:
  assumes "fst (path (Dataset v) w) = Inl e"
    and "exc_kind e \<noteq> ValueError" and "exc_kind e \<noteq> TypeError"
  shows "fst (EnsureDataset_call self v w) = Inl (Raised e)"
proof -
  from assms(1) obtain ds1 w1 where "path (Dataset v) w = (Inl e, ds1, w1)"
    by (cases "path (Dataset v) w") auto
  with assms(2,3) show ?thesis
    by (simp add: EnsureDataset_call_def)
qed

lemma absent_never_installed:
  assumes "truthy self"
  shows "EnsureDataset_call self Absent w =
           (Inl (ConstraintError self (Dataset_obj ((Dataset Absent)\<lparr>d_path := Some (cwd w)\<rparr>))
                   ''not installed'' []), w)"
  using assms
  by (auto simp add: EnsureDataset_call_def path_def Dataset_def worktree_or_repo_def worktree_def
        repo_def pristine_spec_def raise_for_def is_False_def truthy_def Let_def)

section \<open>A text spec and its path\<close>

lemma text_as_path_worktree:
  assumes "text_as_path s d1 d2"
    and "worktree d1 w = (r1, d1', w1)" and "worktree d2 w = (r2, d2', w2)"
  shows "r1 = r2 \<and> w1 = w2 \<and> text_as_path s d1' d2'"
  using assms
  by (auto simp add: text_as_path_def worktree_def pristine_spec_def
        get_gitmanaged_from_pathlike_def Worktree_new_def Let_def
        split: if_splits sum.splits)

lemma text_as_path_repo:
  assumes "text_as_path s d1 d2"
    and "repo d1 w = (r1, d1', w1)" and "repo d2 w = (r2, d2', w2)"
  shows "r1 = r2 \<and> w1 = w2 \<and> text_as_path s d1' d2'"
proof (cases "d_repo d1")
  case (Some x)
  with assms(1) have s2: "d_repo d2 = Some x" by (simp add: text_as_path_def)
  from repo_cached [OF Some, of w] assms(2) have e1: "r1 = Inr (Some x)" "d1' = d1" "w1 = w"
    by simp_all
  from repo_cached [OF s2, of w] assms(3) have e2: "r2 = Inr (Some x)" "d2' = d2" "w2 = w"
    by simp_all
  from e1 e2 assms(1) show ?thesis by simp
next
  case None
  with assms(1) have n2: "d_repo d2 = None" by (simp add: text_as_path_def)
  obtain t1 e1 v1 where a1: "worktree d1 w = (t1, e1, v1)" by (cases "worktree d1 w") auto
  obtain t2 e2 v2 where a2: "worktree d2 w = (t2, e2, v2)" by (cases "worktree d2 w") auto
  from text_as_path_worktree [OF assms(1) a1 a2]
  have eq: "t2 = t1" "v2 = v1" and rel: "text_as_path s e1 e2" by simp_all
  from assms(1) have sp0: "pristine_spec d1 = TextValue s"
      "pristine_spec d2 = PathValue (Path_from_str s)"
    by (simp_all add: text_as_path_def pristine_spec_def)
  show ?thesis
  proof (cases "t1 = Inr None")
    case False
    from assms(2) None a1 False have "w1 = v1" and "r1 = map_sum id (map_option worktree_repo) t1"
      and "d1' = (case t1 of Inr (Some t) \<Rightarrow> e1\<lparr>d_repo := Some (worktree_repo t)\<rparr> | _ \<Rightarrow> e1)"
      by (auto simp add: repo_def split: sum.splits option.splits)
    moreover
    from assms(3) n2 a2 eq False have "w2 = v1" and "r2 = map_sum id (map_option worktree_repo) t1"
      and "d2' = (case t1 of Inr (Some t) \<Rightarrow> e2\<lparr>d_repo := Some (worktree_repo t)\<rparr> | _ \<Rightarrow> e2)"
      by (auto simp add: repo_def split: sum.splits option.splits)
    ultimately show ?thesis using rel
      by (auto simp add: text_as_path_def split: sum.splits option.splits)
  next
    case True
    let ?o = "except_ValueError (repo_at v1 (Path_from_str s))"
    let ?v = "v1\<lparr>probes := probes v1 @ [(Repo_cls, Path_from_str s)]\<rparr>"
    from assms(2) None a1 True sp0 have "w1 = ?v" and "r1 = ?o"
      and "d1' = (case ?o of Inl e \<Rightarrow> e1 | Inr x \<Rightarrow> e1\<lparr>d_repo := x\<rparr>)"
      by (auto simp add: repo_def get_gitmanaged_from_pathlike_def Repo_new_def Let_def
            split: sum.splits)
    moreover
    from assms(3) n2 a2 eq True sp0 have "w2 = ?v" and "r2 = ?o"
      and "d2' = (case ?o of Inl e \<Rightarrow> e2 | Inr x \<Rightarrow> e2\<lparr>d_repo := x\<rparr>)"
      by (auto simp add: repo_def get_gitmanaged_from_pathlike_def Repo_new_def Let_def
            split: sum.splits)
    ultimately show ?thesis using rel
      by (auto simp add: text_as_path_def split: sum.splits)
  qed
qed

lemma text_as_path_path:
  assumes "text_as_path s d1 d2"
    and "path d1 w = (r1, d1', w1)" and "path d2 w = (r2, d2', w2)"
  shows "r1 = r2 \<and> w1 = w2 \<and> text_as_path s d1' d2'"
proof (cases "d_path d1")
  case (Some x)
  with assms(1) have s2: "d_path d2 = Some x" by (simp add: text_as_path_def)
  from path_cached [OF Some, of w] assms(2) have e1: "r1 = Inr x" "d1' = d1" "w1 = w" by simp_all
  from path_cached [OF s2, of w] assms(3) have e2: "r2 = Inr x" "d2' = d2" "w2 = w" by simp_all
  from e1 e2 assms(1) show ?thesis by simp
next
  case None
  with assms(1) have n2: "d_path d2 = None" by (simp add: text_as_path_def)
  from assms(1) have sp0: "d_spec d1 = TextValue s" "d_spec d2 = PathValue (Path_from_str s)"
    by (simp_all add: text_as_path_def)
  obtain t1 e1 v1 where a1: "worktree d1 w = (t1, e1, v1)" by (cases "worktree d1 w") auto
  obtain t2 e2 v2 where a2: "worktree d2 w = (t2, e2, v2)" by (cases "worktree d2 w") auto
  from text_as_path_worktree [OF assms(1) a1 a2]
  have eq: "t2 = t1" "v2 = v1" and rel: "text_as_path s e1 e2" by simp_all
  show ?thesis
  proof (cases "t1 = Inr None")
    case False
    let ?r = "(case t1 of Inl e \<Rightarrow> Inl e | Inr x \<Rightarrow> Inr (map_option worktree_path x))"
    from assms(2) None sp0 a1 False
    have "w1 = v1" and "map_sum id Some r1 = ?r"
      and "d1' = (case t1 of Inr (Some t) \<Rightarrow> e1\<lparr>d_path := Some (worktree_path t)\<rparr> | _ \<Rightarrow> e1)"
      by (auto simp add: path_def split: sum.splits option.splits)
    moreover
    from assms(3) n2 sp0 a2 eq False
    have "w2 = v1" and "map_sum id Some r2 = ?r"
      and "d2' = (case t1 of Inr (Some t) \<Rightarrow> e2\<lparr>d_path := Some (worktree_path t)\<rparr> | _ \<Rightarrow> e2)"
      by (auto simp add: path_def split: sum.splits option.splits)
    ultimately have "map_sum id Some r1 = map_sum id Some r2" and "w1 = w2"
      and "text_as_path s d1' d2'"
      using rel by (auto simp add: text_as_path_def split: sum.splits option.splits)
    moreover from this(1) have "r1 = r2"
      by (cases r1; cases r2) simp_all
    ultimately show ?thesis by simp
  next
    case True
    obtain p1 f1 u1 where b1: "repo e1 v1 = (p1, f1, u1)" by (cases "repo e1 v1") auto
    obtain p2 f2 u2 where b2: "repo e2 v1 = (p2, f2, u2)" by (cases "repo e2 v1") auto
    from text_as_path_repo [OF rel b1 b2]
    have eq2: "p2 = p1" "u2 = u1" and rel2: "text_as_path s f1 f2" by simp_all
    from rel2 have sp2: "pristine_spec f1 = TextValue s"
        "pristine_spec f2 = PathValue (Path_from_str s)"
      by (simp_all add: text_as_path_def pristine_spec_def)
    let ?r = "(case p1 of Inl e \<Rightarrow> Inl e | Inr None \<Rightarrow> Inr (Path_from_str s)
              | Inr (Some rp) \<Rightarrow> Inr (repo_path rp))"
    from assms(2) None sp0 a1 True b1 sp2 have "w1 = u1" and "r1 = ?r"
      and "d1' = (case ?r of Inl e \<Rightarrow> f1 | Inr x \<Rightarrow> f1\<lparr>d_path := Some x\<rparr>)"
      by (auto simp add: path_def Path_of_spec_def split: sum.splits option.splits)
    moreover
    from assms(3) n2 sp0 a2 True eq b2 eq2 sp2 have "w2 = u1" and "r2 = ?r"
      and "d2' = (case ?r of Inl e \<Rightarrow> f2 | Inr x \<Rightarrow> f2\<lparr>d_path := Some x\<rparr>)"
      by (auto simp add: path_def split: sum.splits option.splits)
    ultimately show ?thesis using rel2
      by (auto simp add: text_as_path_def split: sum.splits option.splits)
  qed
qed

lemma text_as_path_access_all:
  "text_as_path s d1 d2 \<Longrightarrow> access_all accs d1 w = (d1', w1) \<Longrightarrow> access_all accs d2 w = (d2', w2)
   \<Longrightarrow> w1 = w2 \<and> text_as_path s d1' d2'"
proof (induction accs arbitrary: d1 d2 w)
  case Nil
  then show ?case by simp
next
  case (Cons a accs)
  show ?case
  proof (cases a)
    case Get_path
    obtain r1 e1 v1 where a1: "path d1 w = (r1, e1, v1)" by (cases "path d1 w") auto
    obtain r2 e2 v2 where a2: "path d2 w = (r2, e2, v2)" by (cases "path d2 w") auto
    from text_as_path_path [OF Cons.prems(1) a1 a2]
    have "v1 = v2" and rel: "text_as_path s e1 e2" by simp_all
    with Cons.prems(2,3) Get_path a1 a2
    have "access_all accs e1 v1 = (d1', w1)" and "access_all accs e2 v1 = (d2', w2)" by simp_all
    with rel show ?thesis by (rule Cons.IH)
  next
    case Get_repo
    obtain r1 e1 v1 where a1: "repo d1 w = (r1, e1, v1)" by (cases "repo d1 w") auto
    obtain r2 e2 v2 where a2: "repo d2 w = (r2, e2, v2)" by (cases "repo d2 w") auto
    from text_as_path_repo [OF Cons.prems(1) a1 a2]
    have "v1 = v2" and rel: "text_as_path s e1 e2" by simp_all
    with Cons.prems(2,3) Get_repo a1 a2
    have "access_all accs e1 v1 = (d1', w1)" and "access_all accs e2 v1 = (d2', w2)" by simp_all
    with rel show ?thesis by (rule Cons.IH)
  next
    case Get_worktree
    obtain r1 e1 v1 where a1: "worktree d1 w = (r1, e1, v1)" by (cases "worktree d1 w") auto
    obtain r2 e2 v2 where a2: "worktree d2 w = (r2, e2, v2)" by (cases "worktree d2 w") auto
    from text_as_path_worktree [OF Cons.prems(1) a1 a2]
    have "v1 = v2" and rel: "text_as_path s e1 e2" by simp_all
    with Cons.prems(2,3) Get_worktree a1 a2
    have "access_all accs e1 v1 = (d1', w1)" and "access_all accs e2 v1 = (d2', w2)" by simp_all
    with rel show ?thesis by (rule Cons.IH)
  qed
qed

lemma text_as_path_Dataset: "text_as_path s (Dataset (TextValue s)) (Dataset (PathValue (Path_from_str s)))"
  by (simp add: text_as_path_def Dataset_def)

section \<open>The synopsis\<close>

lemma synopsis_cases:
  "input_synopsis i =
     (if truthy i then ''(path to) an existing dataset''
      else if is_False i then ''(path to) a non-existing dataset''
      else ''(path to) a dataset'')"
  by (simp add: input_synopsis_def)

lemma words_existing:
  "words_of ''(path to) an existing dataset'' = [''(path'', ''to)'', ''an'', ''existing'', ''dataset'']"
  by (simp add: words_of_def)

lemma words_non_existing:
  "words_of ''(path to) a non-existing dataset'' = [''(path'', ''to)'', ''a'', ''non-existing'', ''dataset'']"
  by (simp add: words_of_def)

lemma words_any:
  "words_of ''(path to) a dataset'' = [''(path'', ''to)'', ''a'', ''dataset'']"
  by (simp add: words_of_def)

lemma truthy_not_False: "truthy i \<Longrightarrow> \<not> is_False i"
  by (auto simp add: truthy_def is_False_def)

section \<open>The example environment\<close>

lemma Path_from_str_data_ds: "Path_from_str ''/data/ds'' = PosixPath ''/'' [''data'', ''ds'']"
  by (simp add: Path_from_str_def splitroot_def)

lemma ex_found_worktree_ds: "found_worktree (TextValue ''/data/ds'') ex_world = Inr (Some ex_worktree)"
  by (simp add: found_worktree_def ex_world_def Path_from_str_data_ds except_ValueError_def)

lemma ex_found_repo_ds: "found_repo (TextValue ''/data/ds'') ex_world = Inr (Some ex_repo)"
  by (simp add: found_repo_def ex_found_worktree_ds) (simp add: ex_worktree_def)

lemma ex_found_worktree_bare:
  "found_worktree (PathValue (PosixPath ''/'' [''data'', ''bare.git''])) ex_world = Inr None"
  by (simp add: found_worktree_def ex_world_def except_ValueError_def)

lemma ex_found_repo_bare:
  "found_repo (PathValue (PosixPath ''/'' [''data'', ''bare.git''])) ex_world = Inr (Some ex_bare)"
  by (simp add: found_repo_def ex_found_worktree_bare) (simp add: ex_world_def except_ValueError_def)

section \<open>The claims\<close>

text \<open>
  C1. Validating \<open>None\<close> under a must-exist policy is documented to look for a dataset
  that contains the working directory before it says "not installed". The code makes no
  search: in the example environment, whose working directory is the root of a checkout,
  \<open>EnsureDataset(installed=True)(None)\<close> fails with "not installed", and the environment
  it leaves is the one it was given, with no constructor call recorded. Lemma
  \<open>absent_never_installed\<close> is the same for every environment and every truthy policy.
\<close>

theorem absent_not_installed_in_checkout:
  "worktree_at ex_world (cwd ex_world) = Inr ex_worktree \<and>
   EnsureDataset_call (Inst_bool True) Absent ex_world =
     (Inl (ConstraintError (Inst_bool True)
             (Dataset_obj \<lparr>d_spec = Absent, d_repo = None, d_worktree = None,
                            d_path = Some (PosixPath ''/'' [''data'', ''ds''])\<rparr>)
             ''not installed'' []), ex_world)"
  by (simp add: EnsureDataset_call_def path_def Dataset_def worktree_or_repo_def worktree_def
        repo_def pristine_spec_def raise_for_def is_False_def truthy_def Let_def ex_world_def)

text \<open>
  C2, as the code has it. A read of \<open>repo\<close> that yields a repository stores it, and
  every later read returns it and leaves the object and the environment as they are (no
  constructor is called, whatever the environment is by then). A read that yields \<open>None\<close>
  leaves the object exactly as it was: unset and resolved-to-none are the same state.
\<close>

theorem repo_present_is_cached:
  "(repo ds w = (Inr (Some r), ds', w') \<longrightarrow> repo ds' w2 = (Inr (Some r), ds', w2))
   \<and> (repo ds w = (Inr None, ds', w') \<longrightarrow> ds' = ds)"
  by (auto simp add: repo_cached dest: repo_Some_stored repo_None_unchanged)

theorem repo_present_is_cached_witness:
  "repo (Dataset (TextValue ''/data/ds'')) ex_world
     = (Inr (Some ex_repo),
        \<lparr>d_spec = TextValue ''/data/ds'', d_repo = Some ex_repo, d_worktree = Some ex_worktree,
           d_path = None\<rparr>,
        ex_world\<lparr>probes := [(Worktree_cls, PosixPath ''/'' [''data'', ''ds''])]\<rparr>)
   \<and> repo \<lparr>d_spec = TextValue ''/data/ds'', d_repo = Some ex_repo, d_worktree = Some ex_worktree,
              d_path = None\<rparr> ex_world
     = (Inr (Some ex_repo),
        \<lparr>d_spec = TextValue ''/data/ds'', d_repo = Some ex_repo, d_worktree = Some ex_worktree,
           d_path = None\<rparr>,
        ex_world)
   \<and> fst (repo (Dataset (PathValue (PosixPath ''/'' [''data'', ''new'']))) ex_world) = Inr None
   \<and> fst (snd (repo (Dataset (PathValue (PosixPath ''/'' [''data'', ''new'']))) ex_world))
     = Dataset (PathValue (PosixPath ''/'' [''data'', ''new'']))"
proof -
  let ?d = "\<lparr>d_spec = TextValue ''/data/ds'', d_repo = Some ex_repo, d_worktree = Some ex_worktree,
             d_path = None\<rparr>"
  let ?w = "ex_world\<lparr>probes := [(Worktree_cls, PosixPath ''/'' [''data'', ''ds''])]\<rparr>"
  let ?new = "Dataset (PathValue (PosixPath ''/'' [''data'', ''new'']))"
  have a: "repo (Dataset (TextValue ''/data/ds'')) ex_world = (Inr (Some ex_repo), ?d, ?w)"
    by (simp add: Dataset_def ex_world_def ex_worktree_def repo_def worktree_def pristine_spec_def
          get_gitmanaged_from_pathlike_def Worktree_new_def except_ValueError_def
          Path_from_str_data_ds Let_def)
  have n: "fst (repo ?new ex_world) = Inr None"
    by (simp add: fst_repo_Dataset found_repo_def found_worktree_def ex_world_def
          except_ValueError_def)
  then have b: "repo ?new ex_world = (Inr None, fst (snd (repo ?new ex_world)), snd (snd (repo ?new ex_world)))"
    by (cases "repo ?new ex_world") simp
  from repo_present_is_cached [of "Dataset (TextValue ''/data/ds'')" ex_world ex_repo ?d ?w ex_world] a
  have c: "repo ?d ex_world = (Inr (Some ex_repo), ?d, ex_world)" by simp
  from repo_present_is_cached [of ?new ex_world ex_repo "fst (snd (repo ?new ex_world))"
      "snd (snd (repo ?new ex_world))" ex_world] b
  have d: "fst (snd (repo ?new ex_world)) = ?new" by simp
  from a c n d show ?thesis by simp
qed

text \<open>
  C2, as stated, fails: for a path with nothing on disk the first read of \<open>repo\<close>
  gives \<open>None\<close> after one \<open>Worktree\<close> and one \<open>Repo\<close> constructor call and leaves
  the object as constructed; the second read makes both calls again.
\<close>

theorem repo_none_is_resolved_again:
  "repo (Dataset (PathValue (PosixPath ''/'' [''data'', ''new'']))) ex_world
     = (Inr None, Dataset (PathValue (PosixPath ''/'' [''data'', ''new''])),
        ex_world\<lparr>probes := [(Worktree_cls, PosixPath ''/'' [''data'', ''new'']),
                            (Repo_cls, PosixPath ''/'' [''data'', ''new''])]\<rparr>)
   \<and> repo (Dataset (PathValue (PosixPath ''/'' [''data'', ''new''])))
        (ex_world\<lparr>probes := [(Worktree_cls, PosixPath ''/'' [''data'', ''new'']),
                             (Repo_cls, PosixPath ''/'' [''data'', ''new''])]\<rparr>)
     = (Inr None, Dataset (PathValue (PosixPath ''/'' [''data'', ''new''])),
        ex_world\<lparr>probes := [(Worktree_cls, PosixPath ''/'' [''data'', ''new'']),
                            (Repo_cls, PosixPath ''/'' [''data'', ''new'']),
                            (Worktree_cls, PosixPath ''/'' [''data'', ''new'']),
                            (Repo_cls, PosixPath ''/'' [''data'', ''new''])]\<rparr>)"
  by (simp add: repo_def worktree_def Dataset_def pristine_spec_def ex_world_def
        get_gitmanaged_from_pathlike_def Worktree_new_def Repo_new_def except_ValueError_def
        Let_def)

text \<open>
  C3. For every spec and every object built from it, whatever attributes have been read
  before and however those reads ended (in an environment whose constructor outcomes
  stay as they are): if the worktree accessor yields a worktree, the repo accessor yields
  that worktree's repository, read after the worktree or instead of it.
\<close>

theorem worktree_supplies_repo:
  assumes "access_all accs (Dataset s) w = (ds, w')"
    and "worktree ds w' = (Inr (Some wt), ds1, w1)"
  shows "fst (repo ds1 w1) = Inr (Some (worktree_repo wt))
         \<and> fst (repo ds w') = Inr (Some (worktree_repo wt))"
proof -
  from access_all_consistent [OF consistent_Dataset assms(1)] have c: "consistent s w ds w'" .
  from worktree_consistent [OF c assms(2)]
  have fw: "found_worktree s w = Inr (Some wt)" and c1: "consistent s w ds1 w1" by simp_all
  from fw have fr: "found_repo s w = Inr (Some (worktree_repo wt))" by (simp add: found_repo_def)
  obtain r d2 w2 where a: "repo ds1 w1 = (r, d2, w2)" by (cases "repo ds1 w1") auto
  obtain r' d2' w2' where b: "repo ds w' = (r', d2', w2')" by (cases "repo ds w'") auto
  from repo_consistent [OF c1 a] repo_consistent [OF c b] fr a b show ?thesis by simp
qed

theorem worktree_supplies_repo_witness:
  "fst (repo (fst (access_all [Get_repo, Get_path] (Dataset (TextValue ''/data/ds'')) ex_world))
             (snd (access_all [Get_repo, Get_path] (Dataset (TextValue ''/data/ds'')) ex_world)))
   = Inr (Some ex_repo)"
proof -
  let ?w' = "ex_world\<lparr>probes := [(Worktree_cls, PosixPath ''/'' [''data'', ''ds''])]\<rparr>"
  let ?ds = "\<lparr>d_spec = TextValue ''/data/ds'', d_repo = Some ex_repo,
              d_worktree = Some ex_worktree, d_path = Some (PosixPath ''/'' [''data'', ''ds''])\<rparr>"
  have a: "access_all [Get_repo, Get_path] (Dataset (TextValue ''/data/ds'')) ex_world = (?ds, ?w')"
    by (simp add: Dataset_def ex_world_def ex_worktree_def repo_def worktree_def path_def
          pristine_spec_def get_gitmanaged_from_pathlike_def Worktree_new_def Repo_new_def
          except_ValueError_def Path_from_str_data_ds Let_def)
  have b: "worktree ?ds ?w' = (Inr (Some ex_worktree), ?ds, ?w')"
    by (simp add: worktree_def)
  from worktree_supplies_repo [OF a b]
  have "fst (repo ?ds ?w') = Inr (Some (worktree_repo ex_worktree))" by simp
  then show ?thesis
    unfolding a by (simp add: ex_worktree_def)
qed

text \<open>
  C4, as the code has it. The first read of \<open>path\<close> is the working directory, as
  \<open>Path.cwd()\<close> gives it, for \<open>None\<close>, and the handle's path for a handle. For a path
  or a text it raises exactly when the \<open>Worktree\<close> constructor, or the \<open>Repo\<close>
  constructor called after no worktree was found, raises something other than a
  \<open>ValueError\<close>, and then it raises that exception; otherwise it is the path of the
  worktree found there, else of the repository found there, else the given path itself
  (\<open>Path(text)\<close> for a text), unchanged and so absolute only when the given path is.
\<close>

theorem path_by_shape:
  "fst (path (Dataset Absent) w) = Inr (cwd w)
   \<and> fst (path (Dataset (WorktreeHandle t)) w) = Inr (worktree_path t)
   \<and> fst (path (Dataset (RepoHandle r)) w) = Inr (repo_path r)
   \<and> fst (path (Dataset (PathValue p)) w) =
       (case except_ValueError (worktree_at w p) of
          Inl e \<Rightarrow> Inl e
        | Inr (Some t) \<Rightarrow> Inr (worktree_path t)
        | Inr None \<Rightarrow>
            (case except_ValueError (repo_at w p) of
               Inl e \<Rightarrow> Inl e
             | Inr (Some r) \<Rightarrow> Inr (repo_path r)
             | Inr None \<Rightarrow> Inr p))
   \<and> fst (path (Dataset (TextValue x)) w) =
       (case except_ValueError (worktree_at w (Path_from_str x)) of
          Inl e \<Rightarrow> Inl e
        | Inr (Some t) \<Rightarrow> Inr (worktree_path t)
        | Inr None \<Rightarrow>
            (case except_ValueError (repo_at w (Path_from_str x)) of
               Inl e \<Rightarrow> Inl e
             | Inr (Some r) \<Rightarrow> Inr (repo_path r)
             | Inr None \<Rightarrow> Inr (Path_from_str x)))"
  by (simp add: fst_path_Dataset found_worktree_def found_repo_def Path_of_spec_def
        split: option.splits sum.splits)

text \<open>
  C4, as stated, fails twice. With nothing on disk at the relative path \<open>new\<close>,
  \<open>path\<close> is that relative path, for the path spec and for the text spec alike. And at
  \<open>/data/locked\<close>, where the constructors fail with an \<open>OSError\<close>, the read of \<open>path\<close>
  fails with it.
\<close>

theorem path_relative_or_failing:
  "fst (path (Dataset (PathValue (PosixPath [] [''new'']))) ex_world) = Inr (PosixPath [] [''new''])
   \<and> \<not> is_absolute (PosixPath [] [''new''])
   \<and> fst (path (Dataset (TextValue ''new'')) ex_world) = Inr (PosixPath [] [''new''])
   \<and> fst (path (Dataset (PathValue (PosixPath ''/'' [''data'', ''locked'']))) ex_world)
       = Inl (PyExc OSError ''Permission denied'')"
  by (simp add: fst_path_Dataset found_worktree_def found_repo_def Path_of_spec_def ex_world_def
        is_absolute_def Path_from_str_def splitroot_def except_ValueError_def)

text \<open>
  C5. When the worktree or the repo accessor of a new object for the value yields an
  entity, validating the value with \<open>installed=False\<close> fails with "already exists
  locally", the error carrying the object built from the value, and validating it with
  \<open>installed=True\<close> returns the object built from the value.
\<close>

theorem present_entity_policies:
  assumes "(\<exists>t. fst (worktree (Dataset v) w) = Inr (Some t))
           \<or> (\<exists>r. fst (repo (Dataset v) w) = Inr (Some r))"
  shows "(\<exists>ds w'. EnsureDataset_call (Inst_bool False) v w =
                     (Inl (ConstraintError (Inst_bool False) (Dataset_obj ds) ''already exists locally'' []), w')
                  \<and> pristine_spec ds = v)
       \<and> (\<exists>ds w'. EnsureDataset_call (Inst_bool True) v w = (Inr ds, w') \<and> pristine_spec ds = v)"
proof -
  from assms obtain e where fe: "found_entity v w = Inr (Some e)"
    unfolding fst_worktree_Dataset fst_repo_Dataset using found_entity_present [of v w] by blast
  from found_entity_path [OF fe] obtain p ds1 w1 where st: "path (Dataset v) w = (Inr p, ds1, w1)"
    by (cases "path (Dataset v) w") auto
  from call_after_path [OF st, of "Inst_bool False"] fe obtain ds w'
    where "consistent v w ds w'"
      and "EnsureDataset_call (Inst_bool False) v w = (policy_outcome (Inst_bool False) (Some e) ds, w')"
    by auto
  then have no: "EnsureDataset_call (Inst_bool False) v w =
      (Inl (ConstraintError (Inst_bool False) (Dataset_obj ds) ''already exists locally'' []), w')
      \<and> pristine_spec ds = v"
    by (simp add: policy_outcome_def is_False_def raise_for_def consistent_def pristine_spec_def)
  from call_after_path [OF st, of "Inst_bool True"] fe obtain ds' w''
    where "consistent v w ds' w''"
      and "EnsureDataset_call (Inst_bool True) v w = (policy_outcome (Inst_bool True) (Some e) ds', w'')"
    by auto
  then have yes: "EnsureDataset_call (Inst_bool True) v w = (Inr ds', w'') \<and> pristine_spec ds' = v"
    by (simp add: policy_outcome_def is_False_def truthy_def consistent_def pristine_spec_def)
  from no yes show ?thesis by blast
qed

theorem present_entity_policies_witness:
  "fst (worktree (Dataset (TextValue ''/data/ds'')) ex_world) = Inr (Some ex_worktree)
   \<and> (\<exists>ds w'. EnsureDataset_call (Inst_bool False) (TextValue ''/data/ds'') ex_world =
                     (Inl (ConstraintError (Inst_bool False) (Dataset_obj ds) ''already exists locally'' []), w')
                  \<and> pristine_spec ds = TextValue ''/data/ds'')
   \<and> (\<exists>ds w'. EnsureDataset_call (Inst_bool True) (TextValue ''/data/ds'') ex_world = (Inr ds, w')
                  \<and> pristine_spec ds = TextValue ''/data/ds'')"
proof -
  have h: "fst (worktree (Dataset (TextValue ''/data/ds'')) ex_world) = Inr (Some ex_worktree)"
    by (simp add: fst_worktree_Dataset ex_found_worktree_ds)
  then have "(\<exists>t. fst (worktree (Dataset (TextValue ''/data/ds'')) ex_world) = Inr (Some t))
             \<or> (\<exists>r. fst (repo (Dataset (TextValue ''/data/ds'')) ex_world) = Inr (Some r))"
    by simp
  from present_entity_policies [OF this] h show ?thesis by blast
qed

text \<open>
  C6. Under \<open>installed='with-id'\<close>, when an entity exists, the one queried is the
  worktree if there is one and the repository otherwise; with \<open>src\<close> its
  \<open>datalad-branch\<close> configuration source, the call fails with "does not have a
  datalad-id" exactly when \<open>datalad.dataset.id\<close> is not in \<open>src\<close>, and returns the
  object built from the value otherwise.
\<close>

theorem marker_policy:
  assumes "fst (worktree (Dataset v) w) = Inr wt" and "fst (repo (Dataset v) w) = Inr rp"
    and "(case wt of Some t \<Rightarrow> Some (A_Worktree t) | None \<Rightarrow> map_option A_Repo rp) = Some e"
    and "sources (config e) ''datalad-branch'' = Some src"
  shows "\<exists>ds w'. pristine_spec ds = v \<and>
           EnsureDataset_call (Inst_str ''with-id'') v w =
             (if src ''datalad.dataset.id'' = None
              then Inl (ConstraintError (Inst_str ''with-id'') (Dataset_obj ds)
                          ''does not have a datalad-id'' [])
              else Inr ds, w')"
proof -
  from assms(1-3) have fe: "found_entity v w = Inr (Some e)"
    by (auto simp add: fst_worktree_Dataset fst_repo_Dataset found_entity_def split: option.splits)
  from found_entity_path [OF fe] obtain p ds1 w1 where st: "path (Dataset v) w = (Inr p, ds1, w1)"
    by (cases "path (Dataset v) w") auto
  from call_after_path [OF st, of "Inst_str ''with-id''"] fe obtain ds w'
    where c: "consistent v w ds w'"
      and "EnsureDataset_call (Inst_str ''with-id'') v w
             = (policy_outcome (Inst_str ''with-id'') (Some e) ds, w')"
    by auto
  with assms(4) have "EnsureDataset_call (Inst_str ''with-id'') v w =
             (if src ''datalad.dataset.id'' = None
              then Inl (ConstraintError (Inst_str ''with-id'') (Dataset_obj ds)
                          ''does not have a datalad-id'' [])
              else Inr ds, w')"
    by (simp add: policy_outcome_def is_False_def truthy_def raise_for_def)
  moreover from c have "pristine_spec ds = v" by (simp add: consistent_def pristine_spec_def)
  ultimately show ?thesis by blast
qed

theorem marker_policy_witness:
  "(\<exists>ds w'. pristine_spec ds = TextValue ''/data/ds'' \<and>
       EnsureDataset_call (Inst_str ''with-id'') (TextValue ''/data/ds'') ex_world = (Inr ds, w'))
   \<and> (\<exists>ds w'. pristine_spec ds = PathValue (PosixPath ''/'' [''data'', ''bare.git'']) \<and>
       EnsureDataset_call (Inst_str ''with-id'') (PathValue (PosixPath ''/'' [''data'', ''bare.git''])) ex_world =
         (Inl (ConstraintError (Inst_str ''with-id'') (Dataset_obj ds) ''does not have a datalad-id'' []), w'))"
proof -
  have a1: "fst (worktree (Dataset (TextValue ''/data/ds'')) ex_world) = Inr (Some ex_worktree)"
    by (simp add: fst_worktree_Dataset ex_found_worktree_ds)
  have a2: "fst (repo (Dataset (TextValue ''/data/ds'')) ex_world) = Inr (Some ex_repo)"
    by (simp add: fst_repo_Dataset ex_found_repo_ds)
  have a3: "(case Some ex_worktree of Some t \<Rightarrow> Some (A_Worktree t)
             | None \<Rightarrow> map_option A_Repo (Some ex_repo)) = Some (A_Worktree ex_worktree)"
    by simp
  have a4: "sources (config (A_Worktree ex_worktree)) ''datalad-branch''
              = Some [''datalad.dataset.id'' \<mapsto> ''6d1a'']"
    by (simp add: config_def ex_worktree_def ex_config_def)
  have b1: "fst (worktree (Dataset (PathValue (PosixPath ''/'' [''data'', ''bare.git'']))) ex_world) = Inr None"
    by (simp add: fst_worktree_Dataset ex_found_worktree_bare)
  have b2: "fst (repo (Dataset (PathValue (PosixPath ''/'' [''data'', ''bare.git'']))) ex_world) = Inr (Some ex_bare)"
    by (simp add: fst_repo_Dataset ex_found_repo_bare)
  have b3: "(case None of Some t \<Rightarrow> Some (A_Worktree t)
             | None \<Rightarrow> map_option A_Repo (Some ex_bare)) = Some (A_Repo ex_bare)"
    by simp
  have b4: "sources (config (A_Repo ex_bare)) ''datalad-branch'' = Some Map.empty"
    by (simp add: config_def ex_bare_def ex_config_no_id_def)
  from marker_policy [OF a1 a2 a3 a4] marker_policy [OF b1 b2 b3 b4] show ?thesis
    by simp
qed

text \<open>
  C7. When the first read of \<open>path\<close> raises a \<open>ValueError\<close> or a \<open>TypeError\<close> (what
  \<open>Path(value)\<close> raises for a value it cannot take; lemma \<open>path_raises_iff\<close> lists
  the ways in which \<open>path\<close> can raise), the call fails, under every policy, with the
  constraint error "cannot create Dataset from ..." for the raw value, whose fields are
  the type of the value and the exception caught.
\<close>

theorem construction_error:
  assumes "fst (path (Dataset v) w) = Inl e"
    and "exc_kind e = ValueError \<or> exc_kind e = TypeError"
  shows "fst (EnsureDataset_call self v w) =
           Inl (ConstraintError self (Raw v) ''cannot create Dataset from {type}: {__caused_by__}''
                  [(''type'', Type_field (type_name v)), (''__caused_by__'', Exc_field e)])"
proof -
  from assms(1) obtain ds1 w1 where "path (Dataset v) w = (Inl e, ds1, w1)"
    by (cases "path (Dataset v) w") auto
  with assms(2) show ?thesis
    by (auto simp add: EnsureDataset_call_def raise_for_def)
qed

theorem construction_error_witness:
  "fst (path (Dataset (OtherValue ''int'' (Inl (PyExc TypeError ''not a path'')))) ex_world)
     = Inl (PyExc TypeError ''not a path'')
   \<and> fst (EnsureDataset_call (Inst_bool True) (OtherValue ''int'' (Inl (PyExc TypeError ''not a path''))) ex_world)
     = Inl (ConstraintError (Inst_bool True) (Raw (OtherValue ''int'' (Inl (PyExc TypeError ''not a path''))))
              ''cannot create Dataset from {type}: {__caused_by__}''
              [(''type'', Type_field ''int''), (''__caused_by__'', Exc_field (PyExc TypeError ''not a path''))])"
proof -
  have h: "fst (path (Dataset (OtherValue ''int'' (Inl (PyExc TypeError ''not a path'')))) ex_world)
     = Inl (PyExc TypeError ''not a path'')"
    by (simp add: path_raises_iff)
  have k: "exc_kind (PyExc TypeError ''not a path'') = ValueError
           \<or> exc_kind (PyExc TypeError ''not a path'') = TypeError"
    by simp
  from construction_error [OF h k, of "Inst_bool True"] h show ?thesis
    by (simp add: type_name_def)
qed

text \<open>
  C8. For an object built from \<open>None\<close>, the first read of \<open>path\<close> gives the working
  directory of the environment it is made in and stores it; construction reads no
  environment. After that, any reads in any other environment leave the object as it is,
  and \<open>path\<close> read in yet another environment still gives the directory of the first
  read.
\<close>

theorem absent_path_is_first_cwd:
  "path (Dataset Absent) w1 = (Inr (cwd w1), (Dataset Absent)\<lparr>d_path := Some (cwd w1)\<rparr>, w1)
   \<and> access_all accs ((Dataset Absent)\<lparr>d_path := Some (cwd w1)\<rparr>) w2
       = ((Dataset Absent)\<lparr>d_path := Some (cwd w1)\<rparr>, w2)
   \<and> path ((Dataset Absent)\<lparr>d_path := Some (cwd w1)\<rparr>) w3
       = (Inr (cwd w1), (Dataset Absent)\<lparr>d_path := Some (cwd w1)\<rparr>, w3)"
proof -
  have "path (Dataset Absent) w1 = (Inr (cwd w1), (Dataset Absent)\<lparr>d_path := Some (cwd w1)\<rparr>, w1)"
    by (simp add: path_def Dataset_def)
  moreover have "access_all accs ((Dataset Absent)\<lparr>d_path := Some (cwd w1)\<rparr>) w2
       = ((Dataset Absent)\<lparr>d_path := Some (cwd w1)\<rparr>, w2)"
    by (rule absent_reads_change_nothing [where p = "cwd w1"]) (simp_all add: Dataset_def)
  moreover have "path ((Dataset Absent)\<lparr>d_path := Some (cwd w1)\<rparr>) w3
       = (Inr (cwd w1), (Dataset Absent)\<lparr>d_path := Some (cwd w1)\<rparr>, w3)"
    by (simp add: path_cached)
  ultimately show ?thesis by simp
qed

text \<open>
  C9. The synopsis has the word "existing" exactly for a truthy \<open>installed\<close> (must-exist
  and must-exist-with-marker), the word "non-existing" exactly for \<open>installed=False\<close>,
  and two policies have the same synopsis exactly when they are in the same of the three
  classes.
\<close>

theorem synopsis_by_policy:
  "(''existing'' \<in> set (words_of (input_synopsis i))) = truthy i
   \<and> (''non-existing'' \<in> set (words_of (input_synopsis i))) = is_False i
   \<and> (input_synopsis i = input_synopsis j) = (truthy i = truthy j \<and> is_False i = is_False j)"
proof -
  have a: "(''existing'' \<in> set (words_of (input_synopsis i))) = truthy i"
    by (simp add: synopsis_cases words_existing words_non_existing words_any)
  have b: "(''non-existing'' \<in> set (words_of (input_synopsis i))) = is_False i"
    using truthy_not_False [of i]
    by (auto simp add: synopsis_cases words_existing words_non_existing words_any)
  have c: "(input_synopsis i = input_synopsis j) = (truthy i = truthy j \<and> is_False i = is_False j)"
    using truthy_not_False [of i] truthy_not_False [of j]
    by (auto simp add: synopsis_cases)
  from a b c show ?thesis by simp
qed

text \<open>
  C10. For every string \<open>s\<close>, every environment and every sequence of earlier reads, the
  object built from the text \<open>s\<close> and the object built from the path \<open>Path(s)\<close> give
  the same \<open>path\<close>, the same \<open>repo\<close> and the same \<open>worktree\<close> (the same value or
  the same exception), after the same constructor calls.
\<close>

theorem text_spec_is_path_spec:
  "(let (d1, w1) = access_all accs (Dataset (TextValue s)) w;
        (d2, w2) = access_all accs (Dataset (PathValue (Path_from_str s))) w
    in fst (path d1 w1) = fst (path d2 w2)
       \<and> fst (repo d1 w1) = fst (repo d2 w2)
       \<and> fst (worktree d1 w1) = fst (worktree d2 w2)
       \<and> w1 = w2)"
proof -
  obtain d1 w1 where a1: "access_all accs (Dataset (TextValue s)) w = (d1, w1)"
    by (cases "access_all accs (Dataset (TextValue s)) w") auto
  obtain d2 w2 where a2: "access_all accs (Dataset (PathValue (Path_from_str s))) w = (d2, w2)"
    by (cases "access_all accs (Dataset (PathValue (Path_from_str s))) w") auto
  from text_as_path_access_all [OF text_as_path_Dataset a1 a2]
  have eq: "w1 = w2" and rel: "text_as_path s d1 d2" by simp_all
  obtain x1 e1 v1 where p1: "path d1 w1 = (x1, e1, v1)" by (cases "path d1 w1") auto
  obtain x2 e2 v2 where p2: "path d2 w1 = (x2, e2, v2)" by (cases "path d2 w1") auto
  obtain y1 f1 u1 where r1: "repo d1 w1 = (y1, f1, u1)" by (cases "repo d1 w1") auto
  obtain y2 f2 u2 where r2: "repo d2 w1 = (y2, f2, u2)" by (cases "repo d2 w1") auto
  obtain z1 g1 t1 where k1: "worktree d1 w1 = (z1, g1, t1)" by (cases "worktree d1 w1") auto
  obtain z2 g2 t2 where k2: "worktree d2 w1 = (z2, g2, t2)" by (cases "worktree d2 w1") auto
  from text_as_path_path [OF rel p1 p2] text_as_path_repo [OF rel r1 r2]
    text_as_path_worktree [OF rel k1 k2] eq a1 a2 p1 p2 r1 r2 k1 k2
  show ?thesis by simp
qed

end
